theory Spec2Isabelle
  imports Complex_Main
begin

section \<open>Numbers and configuration\<close>

text \<open>
  The renderer computes on JavaScript numbers. They are modelled as the reals: rounding of
  IEEE doubles is not modelled, and a quotient whose divisor is zero (\<open>Infinity\<close> or
  \<open>NaN\<close> in the source) is written out where the source's control flow depends on it
  (\<open>totalFrames\<close>), and is excluded by a hypothesis everywhere else: the theorems take the
  frame rate, the typing speed, the reveal frames and the block durations that the source
  divides by as positive, or as nonzero.
  A field of the \<open>config\<close> object that may be \<open>undefined\<close> is an option.
  A string is the list of the characters that \<open>length\<close> counts.
  The canvas, the layout collaborator (\<open>calculateLayout\<close>, \<open>getFlatCharacterPositions\<close>,
  \<open>extractTextAndColors\<close>) and the source of \<open>Math.random\<close> are parameters of the model.
\<close>

record config =
  fps :: real
  charsPerSecond :: "real option"
  revealFrames :: "real option"
  revealOffsetPx :: "real option"
  endHold :: "real option"
  jitter :: "real option"
  motionBlur :: "real option"
  animationStyle :: "string option"
  glitchCharset :: "string option"
  glitchSpeed :: "real option"
  totalDuration :: real

text \<open>A destructuring default \<open>{ x = d } = config\<close> applies when the field is undefined.\<close>

definition dflt :: "real option \<Rightarrow> real \<Rightarrow> real" where
  "dflt v d = (case v of None \<Rightarrow> d | Some x \<Rightarrow> x)"

text \<open>\<open>config.x || d\<close> takes \<open>d\<close> for every falsy value: undefined, and the number 0.\<close>

definition js_or :: "real option \<Rightarrow> real \<Rightarrow> real" where
  "js_or v d = (case v of None \<Rightarrow> d | Some x \<Rightarrow> if x = 0 then d else x)"

text \<open>\<open>config.x > 0\<close> is false for an undefined field.\<close>

definition js_pos :: "real option \<Rightarrow> bool" where
  "js_pos v = (case v of None \<Rightarrow> False | Some x \<Rightarrow> 0 < x)"

definition cps :: "config \<Rightarrow> real" where
  "cps cfg = dflt (charsPerSecond cfg) 10"

definition rframes :: "config \<Rightarrow> real" where
  "rframes cfg = dflt (revealFrames cfg) 3"

definition roffset :: "config \<Rightarrow> real" where
  "roffset cfg = dflt (revealOffsetPx cfg) 18"

definition style :: "config \<Rightarrow> string" where
  "style cfg = (case animationStyle cfg of None \<Rightarrow> ''default''
                | Some s \<Rightarrow> if s = [] then ''default'' else s)"

section \<open>Reveal clock\<close>

text \<open>
  \<open>totalFrames = Math.ceil((totalChars / charsPerSecond + (config.endHold || 1.5)) * fps)\<close>.
  With \<open>charsPerSecond = 0\<close> the quotient is \<open>Infinity\<close> (\<open>NaN\<close> for an empty text): the bound
  of the frame loop is then \<open>Infinity\<close> when \<open>fps > 0\<close>, and the loop never ends (\<open>None\<close>);
  it is \<open>-Infinity\<close> or \<open>NaN\<close> otherwise, and the loop body never runs.
  A bound that is not positive gives no frame.
\<close>

definition totalDurationSeg :: "config \<Rightarrow> nat \<Rightarrow> real" where
  "totalDurationSeg cfg totalChars = real totalChars / cps cfg + js_or (endHold cfg) 1.5"

definition totalFrames :: "config \<Rightarrow> nat \<Rightarrow> nat option" where
  "totalFrames cfg totalChars =
     (if cps cfg = 0
      then (if 0 < totalChars \<and> 0 < fps cfg then None else Some 0)
      else Some (nat \<lceil>totalDurationSeg cfg totalChars * fps cfg\<rceil>))"

definition visibleCount :: "config \<Rightarrow> nat \<Rightarrow> nat \<Rightarrow> int" where
  "visibleCount cfg totalChars f =
     (let time = real f / fps cfg
      in min (int totalChars) \<lfloor>time * cps cfg\<rfloor>)"

definition startFrame :: "config \<Rightarrow> nat \<Rightarrow> real" where
  "startFrame cfg idx = (real idx / cps cfg) * fps cfg"

section \<open>Character reveal\<close>

text \<open>
  One entry of the flattened layout, as the layout collaborator returns it. \<open>char\<close> is a
  JavaScript string (one glyph), \<open>index\<close> the position of the character in the text.
\<close>

record charObj =
  index :: nat
  char :: string
  x :: real
  y :: real
  color :: "string option"

text \<open>
  Modelled from the spec: \<open>easeOutCubic\<close> of \<open>./utils\<close>, a file that is not part of the
  sources at hand: \<open>easeOutCubic(t) = 1-(1-t)^3\<close>.
\<close>

definition easeOutCubic :: "real \<Rightarrow> real" where
  "easeOutCubic t = 1 - (1 - t) ^ 3"

text \<open>
  \<open>s.trim().length > 0\<close>: some character of the string is not white space (the white space
  of ASCII).
\<close>

definition is_space :: "char \<Rightarrow> bool" where
  "is_space c = (c = CHR '' '' \<or> c = CHR 0x09 \<or> c = CHR 0x0A \<or> c = CHR 0x0B
                 \<or> c = CHR 0x0C \<or> c = CHR 0x0D)"

definition trim_nonempty :: "string \<Rightarrow> bool" where
  "trim_nonempty s = (filter (\<lambda>c. \<not> is_space c) s \<noteq> [])"

definition glitchSet :: "config \<Rightarrow> string" where
  "glitchSet cfg =
     (if glitchCharset cfg = Some ''letters''
      then ''ABCDEFGHIJKLMNOPQRSTUVWXYZabcdefghijklmnopqrstuvwxyz''
      else if glitchCharset cfg = Some ''numbers'' then ''0123456789''
      else if glitchCharset cfg = Some ''mixed''
      then ''ABCDEFGHIJKLMNOPQRSTUVWXYZabcdefghijklmnopqrstuvwxyz0123456789!@#$%^&*<>/?''
      else ''!@#$%^&*<>/?010101XY'')"

definition glitchPhase :: "config \<Rightarrow> nat \<Rightarrow> nat \<Rightarrow> int" where
  "glitchPhase cfg f idx =
     (let speed = js_or (glitchSpeed cfg) 0.5
      in \<lfloor>real f * speed + real idx * 13.37\<rfloor>)"

definition glitchSeed1 :: "int \<Rightarrow> real" where
  "glitchSeed1 phase = (let r1 = sin (real_of_int phase) * 10000 in r1 - real_of_int \<lfloor>r1\<rfloor>)"

definition glitchSeed2 :: "int \<Rightarrow> real" where
  "glitchSeed2 phase = (let r2 = cos (real_of_int phase) * 10000 in r2 - real_of_int \<lfloor>r2\<rfloor>)"

text \<open>
  What \<open>renderChar\<close> resolves for one character: the opacity, the horizontal offset and the
  glyph, and whether the glyph is drawn (\<open>fillText\<close> is skipped for an opacity of at most
  0.01 and for a glyph of white space only), with which alpha and where.
\<close>

record charDraw =
  opacity :: real
  xOffset :: real
  charToDraw :: string
  drawn :: bool
  alpha :: real
  drawX :: real
  drawY :: real

definition progressAt :: "real \<Rightarrow> real \<Rightarrow> real \<Rightarrow> real \<Rightarrow> real" where
  "progressAt f sampleProgress startFrm rf =
     (let frameWithSubstep = f + sampleProgress
      in (frameWithSubstep - startFrm) / rf)"

text \<open>
  The three styles, on the reveal progress of the character. Shared by the two copies of
  \<open>renderChar\<close> (single block and timeline), whose style branches are the same text.
\<close>

definition resolveStyle ::
  "config \<Rightarrow> nat \<Rightarrow> int \<Rightarrow> nat \<Rightarrow> charObj \<Rightarrow> real \<Rightarrow> real \<times> real \<times> string" where
  "resolveStyle cfg f visCount totalChars c progress =
     (if style cfg = ''default'' then
        (if visCount \<le> int (index c) then (0, 0, char c)
         else if int (index c) = visCount - 1 \<and> visCount < int totalChars then
           (if progress < 1 \<and> 0 < progress then
              (let eased = easeOutCubic progress
               in (eased, roffset cfg * (1 - eased), char c))
            else if progress \<le> 0 then (0, 0, char c)
            else (1, 0, char c))
         else (1, 0, char c))
      else if style cfg = ''typewriter'' then
        (if progress \<le> 0 then (0, 0, char c) else (1, 0, char c))
      else if style cfg = ''glitch'' then
        (if progress \<le> - 1 then (0, 0, char c)
         else if - 1 < progress \<and> progress \<le> 1.5 then
           (let cSet = glitchSet cfg;
                phase = glitchPhase cfg f (index c);
                seed1 = glitchSeed1 phase;
                seed2 = glitchSeed2 phase
            in (1, (seed2 - 0.5) * 6, [cSet ! nat \<lfloor>seed1 * real (length cSet)\<rfloor>]))
         else (1, 0, char c))
      else (1, 0, char c))"

text \<open>\<open>renderChar\<close> of \<open>renderSegmentToStream\<close>, on the main text layer (offsets 0).\<close>

definition renderChar ::
  "config \<Rightarrow> nat \<Rightarrow> int \<Rightarrow> nat \<Rightarrow> charObj \<Rightarrow> real \<Rightarrow> real \<Rightarrow> charDraw" where
  "renderChar cfg f visCount totalChars c sampleProgress opacityMult =
     (let startFrm = startFrame cfg (index c);
          progress = progressAt (real f) sampleProgress startFrm (rframes cfg);
          (op, xo, g) = resolveStyle cfg f visCount totalChars c progress
      in \<lparr> opacity = op, xOffset = xo, charToDraw = g,
           drawn = (0.01 < op \<and> trim_nonempty g),
           alpha = op * opacityMult, drawX = x c + xo, drawY = y c \<rparr>)"

section \<open>Shake and the text layer of one frame\<close>

text \<open>
  The state the frame loop carries from one frame to the next. \<open>randCalls\<close> counts the calls
  of \<open>Math.random\<close> made so far: the random source is a sequence \<open>rand\<close>, whose \<open>k\<close>-th value
  answers the \<open>k\<close>-th call.
\<close>

record frameState =
  lastVisibleCount :: int
  shakeTrauma :: real
  cachedFlatChars :: "charObj list"
  randCalls :: nat

definition initState :: frameState where
  "initState = \<lparr> lastVisibleCount = - 1, shakeTrauma = 0, cachedFlatChars = [], randCalls = 0 \<rparr>"

text \<open>What one pass of the loop body hands to the canvas.\<close>

record frame =
  frameIndex :: nat
  visibleCharCount :: int
  trauma :: real
  shakeX :: real
  shakeY :: real
  flatChars :: "charObj list"
  mainLayer :: "charDraw list"

text \<open>\<open>shakeTrauma *= 0.9\<close>, then the reset when the visible count changed.\<close>

definition updateShake :: "config \<Rightarrow> int \<Rightarrow> bool \<Rightarrow> real \<Rightarrow> real" where
  "updateShake cfg visCount changed tr =
     (let decayed = tr * 0.9
      in if changed then (if 0 < visCount \<and> js_pos (jitter cfg) then dflt (jitter cfg) 0 else decayed)
         else decayed)"

text \<open>The translation of the text layer, and the number of random calls after it.\<close>

definition shakeOffset :: "(nat \<Rightarrow> real) \<Rightarrow> nat \<Rightarrow> real \<Rightarrow> real \<times> real \<times> nat" where
  "shakeOffset rand k tr =
     (if 0.5 < tr
      then ((rand k - 0.5) * tr * 2, (rand (Suc k) - 0.5) * tr * 2, Suc (Suc k))
      else (0, 0, k))"

definition motionSamples :: "config \<Rightarrow> int" where
  "motionSamples cfg =
     (if js_pos (motionBlur cfg) then max 2 \<lfloor>dflt (motionBlur cfg) 0 * 40\<rfloor> else 1)"

definition isTypingActive :: "config \<Rightarrow> nat \<Rightarrow> int \<Rightarrow> nat \<Rightarrow> bool" where
  "isTypingActive cfg f visCount totalChars =
     (visCount < int totalChars \<or>
      real f - ((real totalChars - 1) / cps cfg) * fps cfg < rframes cfg)"

definition fullyRevealed :: "config \<Rightarrow> nat \<Rightarrow> charObj \<Rightarrow> bool" where
  "fullyRevealed cfg f c = (1 \<le> ((real f - 1) - startFrame cfg (index c)) / rframes cfg)"

text \<open>The calls of \<open>renderChar\<close> that \<open>drawTextLayer\<close> makes for the main text, in order.\<close>

definition mainTextLayer :: "config \<Rightarrow> nat \<Rightarrow> int \<Rightarrow> nat \<Rightarrow> charObj list \<Rightarrow> charDraw list" where
  "mainTextLayer cfg f visCount totalChars chars =
     (let ms = motionSamples cfg; motionWeight = 1 / real_of_int ms
      in if 1 < ms \<and> isTypingActive cfg f visCount totalChars then
           concat (map (\<lambda>s. concat (map (\<lambda>c.
               if fullyRevealed cfg f c
               then (if s = 0 then [renderChar cfg f visCount totalChars c 0 1] else [])
               else [renderChar cfg f visCount totalChars c
                       (- (real s / real_of_int ms)) motionWeight]) chars))
             [0..<nat ms])
         else map (\<lambda>c. renderChar cfg f visCount totalChars c 0 1) chars)"

text \<open>
  The body of the loop of \<open>renderSegmentToStream\<close> up to the drawing. \<open>layout\<close> stands for
  the layout collaborator (\<open>calculateLayout\<close> followed by \<open>getFlatCharacterPositions\<close>),
  which is not part of the sources at hand and is taken as a parameter.
\<close>

definition segmentFrame ::
  "(string \<Rightarrow> charObj list) \<Rightarrow> config \<Rightarrow> string \<Rightarrow> (nat \<Rightarrow> real) \<Rightarrow> nat \<Rightarrow> frameState
     \<Rightarrow> frame \<times> frameState" where
  "segmentFrame layout cfg text rand f st =
     (let totalChars = length text;
          visCount = visibleCount cfg totalChars f;
          changed = (visCount \<noteq> lastVisibleCount st);
          tr = updateShake cfg visCount changed (shakeTrauma st);
          (sx, sy, k) = shakeOffset rand (randCalls st) tr;
          layoutText = (if style cfg = ''default'' then take (nat visCount) text else text);
          chars = (if changed then layout layoutText else cachedFlatChars st)
      in (\<lparr> frameIndex = f, visibleCharCount = visCount, trauma = tr, shakeX = sx, shakeY = sy,
             flatChars = chars,
             mainLayer = mainTextLayer cfg f visCount totalChars chars \<rparr>,
          \<lparr> lastVisibleCount = (if changed then visCount else lastVisibleCount st),
             shakeTrauma = tr, cachedFlatChars = chars, randCalls = k \<rparr>))"

section \<open>The frame loop of a single block\<close>

text \<open>
  \<open>paint\<close> stands for the canvas: it composes the pixel buffer of a frame from the history
  buffer, when that is blended (\<open>config.motionBlur > 0 && f > 0\<close>), and from what the loop
  body computed. The history buffer is overwritten by the frame when motion blur is on.
  The loop returns, in the order of the calls of \<open>stream.write\<close>, each buffer written with
  the frame it was composed from.
\<close>

function frameLoop ::
  "('buf option \<Rightarrow> frame \<Rightarrow> 'buf) \<Rightarrow> (string \<Rightarrow> charObj list) \<Rightarrow> config \<Rightarrow> string
     \<Rightarrow> (nat \<Rightarrow> real) \<Rightarrow> nat \<Rightarrow> nat \<Rightarrow> frameState \<Rightarrow> 'buf option \<Rightarrow> (frame \<times> 'buf) list" where
  "frameLoop paint layout cfg text rand nFrames f st history =
     (if f < nFrames then
        (let (fr, st') = segmentFrame layout cfg text rand f st;
             buffer = paint (if js_pos (motionBlur cfg) \<and> 0 < f then history else None) fr;
             history' = (if js_pos (motionBlur cfg) then Some buffer else history)
         in (fr, buffer) # frameLoop paint layout cfg text rand nFrames (Suc f) st' history')
      else [])"
  by pat_completeness auto
termination
  by (relation "measure (\<lambda>(paint, layout, cfg, text, rand, nFrames, f, st, history). nFrames - f)") auto

declare frameLoop.simps [simp del]

text \<open>
  \<open>renderSegmentToStream\<close>: \<open>extract\<close> stands for \<open>extractTextAndColors\<close> of the layout
  collaborator and gives the clean text. \<open>None\<close>: the loop never ends.
\<close>

definition renderSegmentToStream ::
  "('buf option \<Rightarrow> frame \<Rightarrow> 'buf) \<Rightarrow> (string \<Rightarrow> charObj list) \<Rightarrow> (string \<Rightarrow> string) \<Rightarrow> config
     \<Rightarrow> string \<Rightarrow> (nat \<Rightarrow> real) \<Rightarrow> (frame \<times> 'buf) list option" where
  "renderSegmentToStream paint layout extract cfg rawText rand =
     (let text = extract rawText
      in case totalFrames cfg (length text) of
           None \<Rightarrow> None
         | Some n \<Rightarrow> Some (frameLoop paint layout cfg text rand n 0 initState None))"

section \<open>Timeline mode\<close>

record timelineBlock =
  blockText :: string
  startTime :: real
  duration :: real

text \<open>
  The search for the active block: the first index, in the order of the list, whose block
  holds the frame time; \<open>-1\<close> when there is none.
\<close>

fun findActive :: "timelineBlock list \<Rightarrow> real \<Rightarrow> nat \<Rightarrow> int" where
  "findActive [] time i = - 1"
| "findActive (block # rest) time i =
     (if startTime block \<le> time \<and> time \<le> startTime block + duration block then int i
      else findActive rest time (Suc i))"

record timelineState = frameState +
  activeBlockIndex :: int

definition initTimelineState :: timelineState where
  "initTimelineState = \<lparr> lastVisibleCount = - 1, shakeTrauma = 0, cachedFlatChars = [],
                          randCalls = 0, activeBlockIndex = - 1 \<rparr>"

text \<open>
  A frame of the timeline: the background alone, or the frame of the active block with the
  index of the block and its \<open>blockCharsPerSecond\<close>.
\<close>

datatype timelineFrame = BackgroundOnly nat | BlockFrame nat real frame

definition startFrameT :: "config \<Rightarrow> timelineBlock \<Rightarrow> real \<Rightarrow> nat \<Rightarrow> real" where
  "startFrameT cfg block blockCharsPerSecond idx =
     (real idx / blockCharsPerSecond) * fps cfg + startTime block * fps cfg"

text \<open>
  \<open>renderChar\<close> of \<open>renderTimelineToStream\<close>. The glyph is skipped when the character of the
  text, not the glyph drawn for it, is white space.
\<close>

definition renderCharT ::
  "config \<Rightarrow> timelineBlock \<Rightarrow> real \<Rightarrow> nat \<Rightarrow> int \<Rightarrow> nat \<Rightarrow> charObj \<Rightarrow> real \<Rightarrow> real \<Rightarrow> charDraw" where
  "renderCharT cfg block blockCharsPerSecond f visCount totalChars c sampleProgress opacityMult =
     (let startFrm = startFrameT cfg block blockCharsPerSecond (index c);
          progress = progressAt (real f) sampleProgress startFrm (rframes cfg);
          (op, xo, g) = resolveStyle cfg f visCount totalChars c progress
      in \<lparr> opacity = op, xOffset = xo, charToDraw = g,
           drawn = (0.01 < op \<and> trim_nonempty (char c)),
           alpha = op * opacityMult, drawX = x c + xo, drawY = y c \<rparr>)"

definition isTypingActiveT :: "config \<Rightarrow> timelineBlock \<Rightarrow> real \<Rightarrow> nat \<Rightarrow> int \<Rightarrow> nat \<Rightarrow> bool" where
  "isTypingActiveT cfg block blockCharsPerSecond f visCount totalChars =
     (visCount < int totalChars \<or>
      real f - (((real totalChars - 1) / blockCharsPerSecond) + startTime block) * fps cfg
        < rframes cfg)"

definition fullyRevealedT :: "config \<Rightarrow> timelineBlock \<Rightarrow> real \<Rightarrow> nat \<Rightarrow> charObj \<Rightarrow> bool" where
  "fullyRevealedT cfg block blockCharsPerSecond f c =
     (1 \<le> ((real f - 1) - startFrameT cfg block blockCharsPerSecond (index c)) / rframes cfg)"

definition mainTextLayerT ::
  "config \<Rightarrow> timelineBlock \<Rightarrow> real \<Rightarrow> nat \<Rightarrow> int \<Rightarrow> nat \<Rightarrow> charObj list \<Rightarrow> charDraw list" where
  "mainTextLayerT cfg block blockCharsPerSecond f visCount totalChars chars =
     (let ms = motionSamples cfg; motionWeight = 1 / real_of_int ms
      in if 1 < ms \<and> isTypingActiveT cfg block blockCharsPerSecond f visCount totalChars then
           concat (map (\<lambda>s. concat (map (\<lambda>c.
               if fullyRevealedT cfg block blockCharsPerSecond f c
               then (if s = 0
                     then [renderCharT cfg block blockCharsPerSecond f visCount totalChars c 0 1]
                     else [])
               else [renderCharT cfg block blockCharsPerSecond f visCount totalChars c
                       (- (real s / real_of_int ms)) motionWeight]) chars))
             [0..<nat ms])
         else map (\<lambda>c. renderCharT cfg block blockCharsPerSecond f visCount totalChars c 0 1)
                chars)"

text \<open>
  The body of the loop of \<open>renderTimelineToStream\<close> up to the drawing, on the sorted list of
  blocks. Between two blocks nothing but the background is drawn and the shake state is
  left as it is. A block of duration 0 makes \<open>blockCharsPerSecond\<close> \<open>Infinity\<close> or \<open>NaN\<close> in
  the source; the values computed from it are stated for blocks of positive duration.
\<close>

definition timelineFrame ::
  "(string \<Rightarrow> charObj list) \<Rightarrow> (string \<Rightarrow> string) \<Rightarrow> config \<Rightarrow> timelineBlock list
     \<Rightarrow> (nat \<Rightarrow> real) \<Rightarrow> nat \<Rightarrow> timelineState \<Rightarrow> timelineFrame \<times> timelineState" where
  "timelineFrame layout extract cfg timelineData rand f st =
     (let time = real f / fps cfg;
          currentBlockIndex = findActive timelineData time 0;
          isNewBlock = (currentBlockIndex \<noteq> - 1 \<and> currentBlockIndex \<noteq> activeBlockIndex st)
      in if currentBlockIndex \<noteq> - 1 then
           (let block = timelineData ! nat currentBlockIndex;
                text = extract (blockText block);
                totalChars = length text;
                blockCharsPerSecond = real totalChars / duration block;
                localTime = time - startTime block;
                visCount = min (int totalChars) \<lfloor>localTime * blockCharsPerSecond\<rfloor>;
                changed = (visCount \<noteq> lastVisibleCount st \<or> isNewBlock);
                tr = updateShake cfg visCount changed (shakeTrauma st);
                (sx, sy, k) = shakeOffset rand (randCalls st) tr;
                layoutText = (if style cfg = ''default'' then take (nat visCount) text else text);
                chars = (if changed then layout layoutText else cachedFlatChars st)
            in (BlockFrame (nat currentBlockIndex) blockCharsPerSecond
                  \<lparr> frameIndex = f, visibleCharCount = visCount, trauma = tr,
                    shakeX = sx, shakeY = sy, flatChars = chars,
                    mainLayer = mainTextLayerT cfg block blockCharsPerSecond f visCount
                                  totalChars chars \<rparr>,
                \<lparr> lastVisibleCount = (if changed then visCount else lastVisibleCount st),
                   shakeTrauma = tr, cachedFlatChars = chars, randCalls = k,
                   activeBlockIndex = currentBlockIndex \<rparr>))
         else (BackgroundOnly f, st\<lparr> activeBlockIndex := currentBlockIndex \<rparr>))"

function timelineLoop ::
  "('buf option \<Rightarrow> timelineFrame \<Rightarrow> 'buf) \<Rightarrow> (string \<Rightarrow> charObj list) \<Rightarrow> (string \<Rightarrow> string)
     \<Rightarrow> config \<Rightarrow> timelineBlock list \<Rightarrow> (nat \<Rightarrow> real) \<Rightarrow> nat \<Rightarrow> nat \<Rightarrow> timelineState
     \<Rightarrow> 'buf option \<Rightarrow> (timelineFrame \<times> 'buf) list" where
  "timelineLoop paint layout extract cfg timelineData rand nFrames f st history =
     (if f < nFrames then
        (let (fr, st') = timelineFrame layout extract cfg timelineData rand f st;
             buffer = paint (if js_pos (motionBlur cfg) \<and> 0 < f then history else None) fr;
             history' = (if js_pos (motionBlur cfg) then Some buffer else history)
         in (fr, buffer)
            # timelineLoop paint layout extract cfg timelineData rand nFrames (Suc f) st' history')
      else [])"
  by pat_completeness auto
termination
  by (relation "measure (\<lambda>(paint, layout, extract, cfg, timelineData, rand, nFrames, f, st,
                           history). nFrames - f)") auto

declare timelineLoop.simps [simp del]

text \<open>
  \<open>renderTimelineToStream\<close>: \<open>timelineData.sort((a, b) => a.startTime - b.startTime)\<close> is a
  stable sort on the start times; the frame count is \<open>Math.ceil(totalDuration * fps)\<close>.
\<close>

definition renderTimelineToStream ::
  "('buf option \<Rightarrow> timelineFrame \<Rightarrow> 'buf) \<Rightarrow> (string \<Rightarrow> charObj list) \<Rightarrow> (string \<Rightarrow> string)
     \<Rightarrow> config \<Rightarrow> timelineBlock list \<Rightarrow> (nat \<Rightarrow> real) \<Rightarrow> (timelineFrame \<times> 'buf) list" where
  "renderTimelineToStream paint layout extract cfg timelineData rand =
     (let nFrames = nat \<lceil>totalDuration cfg * fps cfg\<rceil>;
          sorted = sort_key startTime timelineData
      in timelineLoop paint layout extract cfg sorted rand nFrames 0 initTimelineState None)"

section \<open>The state before each frame\<close>

text \<open>
  The state with which the loop of \<open>renderSegmentToStream\<close> enters frame \<open>f\<close>: the initial
  state run through the bodies of the frames before it.
\<close>

primrec stateBefore ::
  "(string \<Rightarrow> charObj list) \<Rightarrow> config \<Rightarrow> string \<Rightarrow> (nat \<Rightarrow> real) \<Rightarrow> nat \<Rightarrow> frameState" where
  "stateBefore layout cfg text rand 0 = initState"
| "stateBefore layout cfg text rand (Suc f) =
     snd (segmentFrame layout cfg text rand f (stateBefore layout cfg text rand f))"

primrec timelineStateBefore ::
  "(string \<Rightarrow> charObj list) \<Rightarrow> (string \<Rightarrow> string) \<Rightarrow> config \<Rightarrow> timelineBlock list
     \<Rightarrow> (nat \<Rightarrow> real) \<Rightarrow> nat \<Rightarrow> timelineState" where
  "timelineStateBefore layout extract cfg timelineData rand 0 = initTimelineState"
| "timelineStateBefore layout extract cfg timelineData rand (Suc f) =
     snd (timelineFrame layout extract cfg timelineData rand f
            (timelineStateBefore layout extract cfg timelineData rand f))"

section \<open>Example inputs\<close>

text \<open>
  The configuration of the spec's frame-count example: 30 frames per second, 10 characters
  per second, an end hold of 1.5 seconds, no jitter, the default style.
\<close>

definition exampleConfig :: config where
  "exampleConfig = \<lparr> fps = 30, charsPerSecond = Some 10, revealFrames = Some 3,
     revealOffsetPx = Some 18, endHold = Some 1.5, jitter = Some 0, motionBlur = None,
     animationStyle = None, glitchCharset = None, glitchSpeed = None, totalDuration = 6 \<rparr>"

text \<open>A canvas that records the frame it is given and the history blended under it.\<close>

datatype 'f raster = Raster "'f raster option" 'f

definition recordPaint :: "'f raster option \<Rightarrow> 'f \<Rightarrow> 'f raster" where
  "recordPaint history fr = Raster history fr"

text \<open>A layout that puts the characters of the text on one line, 10 pixels apart.\<close>

definition lineLayout :: "string \<Rightarrow> charObj list" where
  "lineLayout s = map (\<lambda>i. \<lparr> index = i, char = [s ! i], x = 10 * real i, y = 0, color = None \<rparr>)
                    [0..<length s]"

text \<open>The same with a jitter of 2, and with a jitter of 0.3.\<close>

definition shakyConfig :: config where
  "shakyConfig = exampleConfig\<lparr> jitter := Some 2 \<rparr>"

definition mildConfig :: config where
  "mildConfig = exampleConfig\<lparr> jitter := Some 0.3 \<rparr>"

text \<open>The two blocks of the spec's timeline example.\<close>

definition exampleBlocks :: "timelineBlock list" where
  "exampleBlocks = [\<lparr> blockText = ''AB'', startTime = 0, duration = 2 \<rparr>,
                    \<lparr> blockText = ''CD'', startTime = 3, duration = 2 \<rparr>]"

text \<open>
  A slow typing speed: 32 frames per second, 4 characters per second, 2 reveal frames. And a
  configuration with motion blur: 8 characters per second, 4 reveal frames, a blur of 1/16.
\<close>

definition slowConfig :: config where
  "slowConfig = exampleConfig\<lparr> fps := 32, charsPerSecond := Some 4, revealFrames := Some 2 \<rparr>"

definition blurConfig :: config where
  "blurConfig = exampleConfig\<lparr> fps := 32, charsPerSecond := Some 8, revealFrames := Some 4,
                               motionBlur := Some 0.0625 \<rparr>"

definition charA :: charObj where
  "charA = \<lparr> index = 0, char = ''a'', x = 0, y = 0, color = None \<rparr>"



section \<open>Output path and result of a render\<close>













section \<open>Frame emission\<close>

text \<open>
  The control flow of the frame loop, which \<open>renderSegmentToStream\<close> and
  \<open>renderTimelineToStream\<close> share, as a labelled transition system. At the head of the loop
  with \<open>f < totalFrames\<close> the loop awaits \<open>setImmediate\<close> when \<open>f % 10 === 0\<close>, composes the
  frame, and calls \<open>stream.write\<close>; the stream answers \<open>true\<close> or \<open>false\<close>. On \<open>false\<close> the loop
  awaits the promise that \<open>stream.once('drain', r)\<close> resolves, and it is resumed by the
  \<open>drain\<close> event alone.
\<close>

datatype loopEvent = Yield nat | Compose nat | Write nat bool | Drain nat

datatype loopState = LoopHead nat | Body nat | Composed nat | AwaitDrain nat

inductive loopStep :: "nat \<Rightarrow> loopState \<Rightarrow> loopEvent \<Rightarrow> loopState \<Rightarrow> bool"
  for nFrames :: nat where
  yield: "f < nFrames \<Longrightarrow> f mod 10 = 0 \<Longrightarrow> loopStep nFrames (LoopHead f) (Yield f) (Body f)"
| enter: "f < nFrames \<Longrightarrow> f mod 10 \<noteq> 0 \<Longrightarrow>
          loopStep nFrames (LoopHead f) (Compose f) (Composed f)"
| compose: "loopStep nFrames (Body f) (Compose f) (Composed f)"
| written: "loopStep nFrames (Composed f) (Write f True) (LoopHead (Suc f))"
| backpressure: "loopStep nFrames (Composed f) (Write f False) (AwaitDrain f)"
| drained: "loopStep nFrames (AwaitDrain f) (Drain f) (LoopHead (Suc f))"

inductive loopRun :: "nat \<Rightarrow> loopState \<Rightarrow> loopEvent list \<Rightarrow> loopState \<Rightarrow> bool"
  for nFrames :: nat where
  stay: "loopRun nFrames s [] s"
| step: "loopStep nFrames s e s' \<Longrightarrow> loopRun nFrames s' es s'' \<Longrightarrow>
         loopRun nFrames s (e # es) s''"

text \<open>The frame that a state of the loop writes next, and the frame it composes next.\<close>

fun nextWrite :: "loopState \<Rightarrow> nat" where
  "nextWrite (LoopHead f) = f"
| "nextWrite (Body f) = f"
| "nextWrite (Composed f) = f"
| "nextWrite (AwaitDrain f) = Suc f"

fun nextCompose :: "loopState \<Rightarrow> nat" where
  "nextCompose (LoopHead f) = f"
| "nextCompose (Body f) = f"
| "nextCompose (Composed f) = Suc f"
| "nextCompose (AwaitDrain f) = Suc f"

text \<open>The states that the loop of \<open>nFrames\<close> frames can be in.\<close>

fun inLoop :: "nat \<Rightarrow> loopState \<Rightarrow> bool" where
  "inLoop nFrames (LoopHead f) = (f \<le> nFrames)"
| "inLoop nFrames (Body f) = (f < nFrames)"
| "inLoop nFrames (Composed f) = (f < nFrames)"
| "inLoop nFrames (AwaitDrain f) = (f < nFrames)"

text \<open>The frames written, and the frames composed, in the order of a trace.\<close>

fun writtenFrames :: "loopEvent list \<Rightarrow> nat list" where
  "writtenFrames [] = []"
| "writtenFrames (Write f b # es) = f # writtenFrames es"
| "writtenFrames (e # es) = writtenFrames es"

fun composedFrames :: "loopEvent list \<Rightarrow> nat list" where
  "composedFrames [] = []"
| "composedFrames (Compose f # es) = f # composedFrames es"
| "composedFrames (e # es) = composedFrames es"

text \<open>
  The trace of the whole loop when the stream answers the write of frame \<open>f\<close> with
  \<open>accepts f\<close> and every drain event arrives.
\<close>

function loopTrace :: "(nat \<Rightarrow> bool) \<Rightarrow> nat \<Rightarrow> nat \<Rightarrow> loopEvent list" where
  "loopTrace accepts nFrames f =
     (if f < nFrames then
        (if f mod 10 = 0 then [Yield f] else []) @ [Compose f, Write f (accepts f)]
        @ (if accepts f then [] else [Drain f]) @ loopTrace accepts nFrames (Suc f)
      else [])"
  by pat_completeness auto
termination
  by (relation "measure (\<lambda>(accepts, nFrames, f). nFrames - f)") auto

declare loopTrace.simps [simp del]

section \<open>The frame loop, frame by frame\<close>

lemma length_frameLoop:
  "length (frameLoop paint layout cfg tx rand n f st h) = n - f"
proof (induction paint layout cfg tx rand n f st h rule: frameLoop.induct)
  case (1 paint layout cfg tx rand n f st h)
  show ?case
  proof (cases "f < n")
    case True
    obtain fr st' where seg: "segmentFrame layout cfg tx rand f st = (fr, st')"
      by (cases "segmentFrame layout cfg tx rand f st")
    from True seg 1 [OF True seg [symmetric] refl refl] show ?thesis
      by (subst frameLoop.simps) (simp add: Let_def)
  next
    case False
    then show ?thesis by (subst frameLoop.simps) simp
  qed
qed

lemma frameLoop_nth:
  "f + i < n \<Longrightarrow>
   fst (frameLoop paint layout cfg tx rand n f (stateBefore layout cfg tx rand f) h ! i)
     = fst (segmentFrame layout cfg tx rand (f + i) (stateBefore layout cfg tx rand (f + i)))"
proof (induction i arbitrary: f h)
  case 0
  then show ?case
    by (subst frameLoop.simps) (simp add: Let_def split: prod.splits)
next
  case (Suc i)
  then have lt: "f < n" and lt': "Suc f + i < n" by simp_all
  obtain fr st' where seg:
    "segmentFrame layout cfg tx rand f (stateBefore layout cfg tx rand f) = (fr, st')"
    by (cases "segmentFrame layout cfg tx rand f (stateBefore layout cfg tx rand f)")
  then have st': "stateBefore layout cfg tx rand (Suc f) = st'" by simp
  have "frameLoop paint layout cfg tx rand n f (stateBefore layout cfg tx rand f) h ! Suc i
        = frameLoop paint layout cfg tx rand n (Suc f) st'
            (if js_pos (motionBlur cfg)
             then Some (paint (if js_pos (motionBlur cfg) \<and> 0 < f then h else None) fr)
             else h) ! i"
    using lt seg by (subst frameLoop.simps) (simp add: Let_def)
  also have "fst \<dots> = fst (segmentFrame layout cfg tx rand (Suc f + i)
                              (stateBefore layout cfg tx rand (Suc f + i)))"
    using Suc.IH [OF lt'] unfolding st' .
  finally show ?case by simp
qed

section \<open>Reveal clock\<close>

lemma renderSegment_Some:
  assumes "renderSegmentToStream paint layout extract cfg rawText rand = Some frames"
  shows "\<exists>n. totalFrames cfg (length (extract rawText)) = Some n \<and>
             frames = frameLoop paint layout cfg (extract rawText) rand n 0 initState None"
  using assms by (auto simp: renderSegmentToStream_def Let_def split: option.splits)

lemma renderSegment_frame:
  assumes "renderSegmentToStream paint layout extract cfg rawText rand = Some frames"
    and "f < length frames"
  shows "fst (frames ! f) = fst (segmentFrame layout cfg (extract rawText) rand f
                                   (stateBefore layout cfg (extract rawText) rand f))"
proof -
  from renderSegment_Some [OF assms(1)] obtain n where
    fr: "frames = frameLoop paint layout cfg (extract rawText) rand n 0 initState None"
    by blast
  from assms(2) have "0 + f < n" by (simp add: fr length_frameLoop)
  from frameLoop_nth [OF this, of paint layout cfg "extract rawText" rand None]
  show ?thesis by (simp add: fr)
qed

lemma segmentFrame_visible:
  "visibleCharCount (fst (segmentFrame layout cfg tx rand f st)) = visibleCount cfg (length tx) f"
  by (simp add: segmentFrame_def Let_def split: prod.splits)







section \<open>Frame count\<close>

lemma frame_count:
  assumes "cps cfg \<noteq> 0"
  shows "\<exists>frames. renderSegmentToStream paint layout extract cfg rawText rand = Some frames \<and>
           int (length frames)
             = max 0 \<lceil>(real (length (extract rawText)) / cps cfg + js_or (endHold cfg) 1.5)
                        * fps cfg\<rceil>"
  using assms
  by (simp add: renderSegmentToStream_def totalFrames_def totalDurationSeg_def Let_def
        length_frameLoop max_def)

lemma frame_count_example:
  "map_option length
     (renderSegmentToStream recordPaint lineLayout (\<lambda>s. s) exampleConfig
        ''abcdefghijklmnopqrst'' (\<lambda>k. 0)) = Some 105"
  by (simp add: renderSegmentToStream_def totalFrames_def totalDurationSeg_def Let_def
        length_frameLoop exampleConfig_def cps_def dflt_def js_or_def)

text \<open>
  Claim C6. With an end hold of 0 in the configuration, 20 characters at 10 characters per
  second and 30 frames per second are rendered in 105 frames, the count of an end hold of
  1.5, where \<open>ceil((20/10 + 0) * 30)\<close> is 60: \<open>config.endHold || 1.5\<close> takes the default for
  the number 0 as it does for an absent field.
\<close>

theorem endHold_zero_frame_count:
  "map_option length
     (renderSegmentToStream recordPaint lineLayout (\<lambda>s. s) (exampleConfig\<lparr>endHold := Some 0\<rparr>)
        ''abcdefghijklmnopqrst'' (\<lambda>k. 0)) = Some 105 \<and>
   \<lceil>(real (length ''abcdefghijklmnopqrst'') / 10 + 0) * 30\<rceil> = (60 :: int)"
  by (simp add: renderSegmentToStream_def totalFrames_def totalDurationSeg_def Let_def
        length_frameLoop exampleConfig_def cps_def dflt_def js_or_def)

section \<open>Shake\<close>

lemma segmentFrame_trauma:
  "trauma (fst (segmentFrame layout cfg tx rand f st))
     = updateShake cfg (visibleCount cfg (length tx) f)
         (visibleCount cfg (length tx) f \<noteq> lastVisibleCount st) (shakeTrauma st)"
  by (simp add: segmentFrame_def Let_def split: prod.splits)

lemma segmentFrame_shake:
  "(shakeX (fst (segmentFrame layout cfg tx rand f st)),
    shakeY (fst (segmentFrame layout cfg tx rand f st)),
    randCalls (snd (segmentFrame layout cfg tx rand f st)))
     = shakeOffset rand (randCalls st) (trauma (fst (segmentFrame layout cfg tx rand f st)))"
  by (simp add: segmentFrame_def Let_def split: prod.splits)

lemma segmentFrame_state:
  "shakeTrauma (snd (segmentFrame layout cfg tx rand f st))
     = trauma (fst (segmentFrame layout cfg tx rand f st))"
  "lastVisibleCount (snd (segmentFrame layout cfg tx rand f st)) = visibleCount cfg (length tx) f"
  by (simp_all add: segmentFrame_def Let_def split: prod.splits)

lemma visibleCount_0: "visibleCount cfg n 0 = 0"
  by (simp add: visibleCount_def)

lemma frames_visible:
  assumes "renderSegmentToStream paint layout extract cfg rawText rand = Some frames"
    and "f < length frames"
  shows "visibleCharCount (fst (frames ! f)) = visibleCount cfg (length (extract rawText)) f"
  using renderSegment_frame [OF assms] by (simp add: segmentFrame_visible)

lemma stateBefore_randCalls:
  "randCalls (stateBefore layout cfg tx rand f)
     = 2 * length (filter (\<lambda>g. 0.5 < trauma (fst (segmentFrame layout cfg tx rand g
                                                   (stateBefore layout cfg tx rand g)))) [0..<f])"
proof (induction f)
  case 0
  show ?case by (simp add: initState_def)
next
  case (Suc f)
  have "randCalls (snd (segmentFrame layout cfg tx rand f (stateBefore layout cfg tx rand f)))
        = snd (snd (shakeOffset rand (randCalls (stateBefore layout cfg tx rand f))
             (trauma (fst (segmentFrame layout cfg tx rand f (stateBefore layout cfg tx rand f))))))"
    by (simp add: segmentFrame_shake [symmetric])
  with Suc show ?case
    by (simp add: shakeOffset_def)
qed

lemma frames_randCalls:
  assumes R: "renderSegmentToStream paint layout extract cfg rawText rand = Some frames"
    and f: "f < length frames"
  shows "randCalls (stateBefore layout cfg (extract rawText) rand f)
           = 2 * length (filter (\<lambda>g. 0.5 < trauma (fst (frames ! g))) [0..<f])"
proof -
  have "filter (\<lambda>g. 0.5 < trauma (fst (frames ! g))) [0..<f]
        = filter (\<lambda>g. 0.5 < trauma (fst (segmentFrame layout cfg (extract rawText) rand g
                          (stateBefore layout cfg (extract rawText) rand g)))) [0..<f]"
  proof (rule filter_cong [OF refl])
    fix g assume "g \<in> set [0..<f]"
    with f have "g < length frames" by simp
    from renderSegment_frame [OF R this]
    show "(0.5 < trauma (fst (frames ! g)))
          = (0.5 < trauma (fst (segmentFrame layout cfg (extract rawText) rand g
                          (stateBefore layout cfg (extract rawText) rand g))))"
      by simp
  qed
  then show ?thesis by (simp add: stateBefore_randCalls)
qed

text \<open>
  Claim C8. On every frame of a single-block render the trauma is the trauma of the frame
  before (0 before the first frame) times 0.9, unless the visible-character count differs
  from the count of the frame before (from the initial \<open>-1\<close> on the first frame), the jitter
  is positive and the new count is positive: then it is the jitter. The text layer is
  translated by \<open>((rand()-0.5)*trauma*2, (rand()-0.5)*trauma*2)\<close>, on two fresh values of the
  random source, exactly when that trauma exceeds 0.5, and is not translated otherwise.
\<close>

theorem shake_every_frame:
  assumes R: "renderSegmentToStream paint layout extract cfg rawText rand = Some frames"
    and f: "f < length frames"
  shows "trauma (fst (frames ! f)) =
           (if (f = 0 \<or> visibleCharCount (fst (frames ! f))
                           \<noteq> visibleCharCount (fst (frames ! (f - 1))))
               \<and> js_pos (jitter cfg) \<and> 0 < visibleCharCount (fst (frames ! f))
            then dflt (jitter cfg) 0
            else (if f = 0 then 0 else trauma (fst (frames ! (f - 1)))) * 0.9) \<and>
         (shakeX (fst (frames ! f)), shakeY (fst (frames ! f))) =
           (let k = 2 * length (filter (\<lambda>g. 0.5 < trauma (fst (frames ! g))) [0..<f]);
                tr = trauma (fst (frames ! f))
            in if 0.5 < tr then ((rand k - 0.5) * tr * 2, (rand (Suc k) - 0.5) * tr * 2)
               else (0, 0))"
proof -
  let ?tx = "extract rawText"
  let ?st = "stateBefore layout cfg ?tx rand"
  let ?seg = "\<lambda>g. segmentFrame layout cfg ?tx rand g (?st g)"
  have fr: "fst (frames ! f) = fst (?seg f)"
    by (rule renderSegment_frame [OF R f])
  have prev: "shakeTrauma (?st f) = (if f = 0 then 0 else trauma (fst (frames ! (f - 1))))"
   and last: "lastVisibleCount (?st f)
                = (if f = 0 then - 1 else visibleCharCount (fst (frames ! (f - 1))))"
  proof -
    show "shakeTrauma (?st f) = (if f = 0 then 0 else trauma (fst (frames ! (f - 1))))"
    proof (cases f)
      case 0
      then show ?thesis by (simp add: initState_def)
    next
      case (Suc g)
      with f have "g < length frames" by simp
      from renderSegment_frame [OF R this] Suc show ?thesis
        by (simp add: segmentFrame_state)
    qed
    show "lastVisibleCount (?st f)
            = (if f = 0 then - 1 else visibleCharCount (fst (frames ! (f - 1))))"
    proof (cases f)
      case 0
      then show ?thesis by (simp add: initState_def)
    next
      case (Suc g)
      with f have "g < length frames" by simp
      from frames_visible [OF R this] Suc show ?thesis
        by (simp add: segmentFrame_state)
    qed
  qed
  have vis: "visibleCharCount (fst (frames ! f)) = visibleCount cfg (length ?tx) f"
    by (rule frames_visible [OF R f])
  have t: "trauma (fst (frames ! f)) =
           (if (f = 0 \<or> visibleCharCount (fst (frames ! f))
                           \<noteq> visibleCharCount (fst (frames ! (f - 1))))
               \<and> js_pos (jitter cfg) \<and> 0 < visibleCharCount (fst (frames ! f))
            then dflt (jitter cfg) 0
            else (if f = 0 then 0 else trauma (fst (frames ! (f - 1)))) * 0.9)"
  proof -
    have u: "trauma (fst (frames ! f))
               = updateShake cfg (visibleCount cfg (length ?tx) f)
                   (visibleCount cfg (length ?tx) f \<noteq> lastVisibleCount (?st f))
                   (shakeTrauma (?st f))"
      unfolding fr by (rule segmentFrame_trauma)
    show ?thesis
    proof (cases "f = 0")
      case True
      have "visibleCount cfg (length ?tx) f = 0"
        unfolding True by (rule visibleCount_0)
      with True prev show ?thesis
        unfolding vis u by (simp add: updateShake_def Let_def)
    next
      case False
      with prev last show ?thesis
        unfolding vis u by (simp add: updateShake_def Let_def)
    qed
  qed
  have "(shakeX (fst (?seg f)), shakeY (fst (?seg f)), randCalls (snd (?seg f)))
          = shakeOffset rand (randCalls (?st f)) (trauma (fst (?seg f)))"
    by (rule segmentFrame_shake)
  then have s: "(shakeX (fst (frames ! f)), shakeY (fst (frames ! f))) =
           (let k = 2 * length (filter (\<lambda>g. 0.5 < trauma (fst (frames ! g))) [0..<f]);
                tr = trauma (fst (frames ! f))
            in if 0.5 < tr then ((rand k - 0.5) * tr * 2, (rand (Suc k) - 0.5) * tr * 2)
               else (0, 0))"
    unfolding fr frames_randCalls [OF R f, symmetric]
    by (simp add: shakeOffset_def Let_def split: if_splits)
  from t s show ?thesis by (rule conjI)
qed

lemma shaky_frames:
  "renderSegmentToStream recordPaint lineLayout (\<lambda>s. s) shakyConfig ''hello'' (\<lambda>k. 1)
     = Some (frameLoop recordPaint lineLayout shakyConfig ''hello'' (\<lambda>k. 1) 60 0 initState None)"
  by (simp add: renderSegmentToStream_def totalFrames_def totalDurationSeg_def cps_def dflt_def
        js_or_def exampleConfig_def shakyConfig_def)

theorem shake_every_frame_witness:
  "trauma (fst (frameLoop recordPaint lineLayout shakyConfig ''hello'' (\<lambda>k. 1) 60 0
                  initState None ! 3)) = 2 \<and>
   trauma (fst (frameLoop recordPaint lineLayout shakyConfig ''hello'' (\<lambda>k. 1) 60 0
                  initState None ! 4)) = 9 / 5"
proof -
  let ?F = "frameLoop recordPaint lineLayout shakyConfig ''hello'' (\<lambda>k. 1) 60 0 initState None"
  have len: "2 < length ?F" "3 < length ?F" "4 < length ?F"
    by (simp_all add: length_frameLoop)
  have v: "visibleCharCount (fst (?F ! 2)) = 0" "visibleCharCount (fst (?F ! 3)) = 1"
    "visibleCharCount (fst (?F ! 4)) = 1"
    using frames_visible [OF shaky_frames len(1)] frames_visible [OF shaky_frames len(2)]
      frames_visible [OF shaky_frames len(3)]
    by (simp_all add: visibleCount_def shakyConfig_def exampleConfig_def cps_def dflt_def)
  have j: "js_pos (jitter shakyConfig)" "dflt (jitter shakyConfig) 0 = 2"
    by (simp_all add: shakyConfig_def exampleConfig_def js_pos_def dflt_def)
  from shake_every_frame [OF shaky_frames len(2)] v j
  have t3: "trauma (fst (?F ! 3)) = 2" by simp
  from shake_every_frame [OF shaky_frames len(3)] v j t3
  have "trauma (fst (?F ! 4)) = 9 / 5" by simp
  with t3 show ?thesis by simp
qed

section \<open>The trauma stays between 0 and the jitter\<close>

lemma updateShake_bounds:
  assumes "0 \<le> tr" and "tr \<le> max (dflt (jitter cfg) 0) 0"
  shows "0 \<le> updateShake cfg v ch tr \<and> updateShake cfg v ch tr \<le> max (dflt (jitter cfg) 0) 0"
proof -
  have d: "0 \<le> tr * 0.9" "tr * 0.9 \<le> max (dflt (jitter cfg) 0) 0"
    using assms by simp_all
  show ?thesis
  proof (cases "ch \<and> 0 < v \<and> js_pos (jitter cfg)")
    case True
    then have "0 < dflt (jitter cfg) 0"
      by (auto simp: js_pos_def dflt_def split: option.splits)
    with True show ?thesis by (simp add: updateShake_def Let_def)
  next
    case False
    with d show ?thesis by (auto simp: updateShake_def Let_def)
  qed
qed

lemma stateBefore_bounds:
  "0 \<le> shakeTrauma (stateBefore layout cfg tx rand f) \<and>
   shakeTrauma (stateBefore layout cfg tx rand f) \<le> max (dflt (jitter cfg) 0) 0"
proof (induction f)
  case 0
  show ?case by (simp add: initState_def)
next
  case (Suc f)
  then show ?case
    using updateShake_bounds [of "shakeTrauma (stateBefore layout cfg tx rand f)" cfg]
    by (simp add: segmentFrame_state segmentFrame_trauma)
qed

lemma segmentFrame_rand_indep:
  assumes "dflt (jitter cfg) 0 \<le> 0.5" and "0 \<le> shakeTrauma st"
    and "shakeTrauma st \<le> max (dflt (jitter cfg) 0) 0"
  shows "segmentFrame layout cfg tx rand f st = segmentFrame layout cfg tx rand' f st"
    and "randCalls (snd (segmentFrame layout cfg tx rand f st)) = randCalls st"
    and "shakeX (fst (segmentFrame layout cfg tx rand f st)) = 0"
    and "shakeY (fst (segmentFrame layout cfg tx rand f st)) = 0"
proof -
  have "updateShake cfg v ch (shakeTrauma st) \<le> 0.5" for v ch
    using updateShake_bounds [OF assms(2,3), of v ch] assms(1)
    by (auto simp: max_def split: if_splits)
  then have s: "shakeOffset r k (updateShake cfg v ch (shakeTrauma st)) = (0, 0, k)" for r k v ch
    by (simp add: shakeOffset_def not_less [symmetric])
  show "segmentFrame layout cfg tx rand f st = segmentFrame layout cfg tx rand' f st"
    by (simp add: segmentFrame_def Let_def s)
  show "randCalls (snd (segmentFrame layout cfg tx rand f st)) = randCalls st"
    by (simp add: segmentFrame_def Let_def s)
  show "shakeX (fst (segmentFrame layout cfg tx rand f st)) = 0"
    by (simp add: segmentFrame_def Let_def s)
  show "shakeY (fst (segmentFrame layout cfg tx rand f st)) = 0"
    by (simp add: segmentFrame_def Let_def s)
qed

lemma frameLoop_rand_indep:
  "dflt (jitter cfg) 0 \<le> 0.5 \<Longrightarrow> 0 \<le> shakeTrauma st \<Longrightarrow>
   shakeTrauma st \<le> max (dflt (jitter cfg) 0) 0 \<Longrightarrow>
   frameLoop paint layout cfg tx rand n f st h = frameLoop paint layout cfg tx rand' n f st h"
proof (induction paint layout cfg tx rand n f st h rule: frameLoop.induct)
  case (1 paint layout cfg tx rand n f st h)
  show ?case
  proof (cases "f < n")
    case False
    then show ?thesis by (simp add: frameLoop.simps [of _ _ _ _ _ n f])
  next
    case True
    obtain fr st' where seg: "segmentFrame layout cfg tx rand f st = (fr, st')"
      by (cases "segmentFrame layout cfg tx rand f st")
    have seg': "segmentFrame layout cfg tx rand' f st = (fr, st')"
      using segmentFrame_rand_indep(1) [OF 1(2,3,4), of layout tx rand f rand'] seg by simp
    have b: "0 \<le> shakeTrauma st'" "shakeTrauma st' \<le> max (dflt (jitter cfg) 0) 0"
      using updateShake_bounds [OF 1(3,4)] seg
        segmentFrame_state(1) [of layout cfg tx rand f st]
        segmentFrame_trauma [of layout cfg tx rand f st]
      by simp_all
    show ?thesis
      using True seg seg' 1(1) [OF True seg [symmetric] refl refl refl 1(2) b]
      by (simp add: frameLoop.simps [of _ _ _ _ _ n f] Let_def)
  qed
qed

section \<open>The timeline loop, frame by frame\<close>

lemma length_timelineLoop:
  "length (timelineLoop paint layout ext cfg blocks rand n f st h) = n - f"
proof (induction paint layout ext cfg blocks rand n f st h rule: timelineLoop.induct)
  case (1 paint layout ext cfg blocks rand n f st h)
  show ?case
  proof (cases "f < n")
    case True
    obtain fr st' where seg: "timelineFrame layout ext cfg blocks rand f st = (fr, st')"
      by (cases "timelineFrame layout ext cfg blocks rand f st")
    from True seg 1 [OF True seg [symmetric] refl refl] show ?thesis
      by (subst timelineLoop.simps) (simp add: Let_def)
  next
    case False
    then show ?thesis by (subst timelineLoop.simps) simp
  qed
qed

lemma timelineLoop_nth:
  "f + i < n \<Longrightarrow>
   fst (timelineLoop paint layout ext cfg blocks rand n f
          (timelineStateBefore layout ext cfg blocks rand f) h ! i)
     = fst (timelineFrame layout ext cfg blocks rand (f + i)
              (timelineStateBefore layout ext cfg blocks rand (f + i)))"
proof (induction i arbitrary: f h)
  case 0
  then show ?case
    by (subst timelineLoop.simps) (simp add: Let_def split: prod.splits)
next
  case (Suc i)
  then have lt: "f < n" and lt': "Suc f + i < n" by simp_all
  let ?st = "timelineStateBefore layout ext cfg blocks rand"
  obtain fr st' where seg: "timelineFrame layout ext cfg blocks rand f (?st f) = (fr, st')"
    by (cases "timelineFrame layout ext cfg blocks rand f (?st f)")
  then have st': "?st (Suc f) = st'" by simp
  have "timelineLoop paint layout ext cfg blocks rand n f (?st f) h ! Suc i
        = timelineLoop paint layout ext cfg blocks rand n (Suc f) st'
            (if js_pos (motionBlur cfg)
             then Some (paint (if js_pos (motionBlur cfg) \<and> 0 < f then h else None) fr)
             else h) ! i"
    using lt seg by (subst timelineLoop.simps) (simp add: Let_def)
  also have "fst \<dots> = fst (timelineFrame layout ext cfg blocks rand (Suc f + i)
                              (?st (Suc f + i)))"
    using Suc.IH [OF lt'] unfolding st' .
  finally show ?case by simp
qed

lemma timelineFrame_cases:
  obtains (background) "timelineFrame layout ext cfg blocks rand f st
                          = (BackgroundOnly f, st\<lparr> activeBlockIndex := - 1 \<rparr>)"
      and "findActive blocks (real f / fps cfg) 0 = - 1"
  | (active) fr st' v ch where
      "timelineFrame layout ext cfg blocks rand f st
         = (BlockFrame (nat (findActive blocks (real f / fps cfg) 0))
              (real (length (ext (blockText (blocks ! nat (findActive blocks (real f / fps cfg) 0)))))
                 / duration (blocks ! nat (findActive blocks (real f / fps cfg) 0))) fr, st')"
      and "findActive blocks (real f / fps cfg) 0 \<noteq> - 1"
      and "trauma fr = updateShake cfg v ch (shakeTrauma st)"
      and "shakeTrauma st' = trauma fr"
      and "(shakeX fr, shakeY fr, randCalls st') = shakeOffset rand (randCalls st) (trauma fr)"
proof (cases "findActive blocks (real f / fps cfg) 0 = - 1")
  case True
  then show ?thesis
    by (intro background) (simp_all add: timelineFrame_def Let_def)
next
  case False
  obtain fr st' where r: "timelineFrame layout ext cfg blocks rand f st = (fr, st')"
    by (cases "timelineFrame layout ext cfg blocks rand f st")
  with False show ?thesis
    apply (simp add: timelineFrame_def Let_def split: prod.splits)
    apply (erule conjE)
    apply (rule active)
    apply (auto simp: timelineFrame_def Let_def split: prod.splits)
    done
qed

lemma timelineFrame_bounds:
  assumes "0 \<le> shakeTrauma st" and "shakeTrauma st \<le> max (dflt (jitter cfg) 0) 0"
  shows "0 \<le> shakeTrauma (snd (timelineFrame layout ext cfg blocks rand f st)) \<and>
         shakeTrauma (snd (timelineFrame layout ext cfg blocks rand f st))
           \<le> max (dflt (jitter cfg) 0) 0"
proof (cases rule: timelineFrame_cases [of layout ext cfg blocks rand f st])
  case background
  with assms show ?thesis by simp
next
  case (active fr st' v ch)
  with updateShake_bounds [OF assms, of v ch] show ?thesis by simp
qed

lemma timelineStateBefore_bounds:
  "0 \<le> shakeTrauma (timelineStateBefore layout ext cfg blocks rand f) \<and>
   shakeTrauma (timelineStateBefore layout ext cfg blocks rand f) \<le> max (dflt (jitter cfg) 0) 0"
proof (induction f)
  case 0
  show ?case by (simp add: initTimelineState_def)
next
  case (Suc f)
  then show ?case using timelineFrame_bounds by simp
qed

lemma timelineFrame_rand_indep:
  assumes "dflt (jitter cfg) 0 \<le> 0.5" and "0 \<le> shakeTrauma st"
    and "shakeTrauma st \<le> max (dflt (jitter cfg) 0) 0"
  shows "timelineFrame layout ext cfg blocks rand f st
           = timelineFrame layout ext cfg blocks rand' f st"
proof -
  have "updateShake cfg v ch (shakeTrauma st) \<le> 0.5" for v ch
    using updateShake_bounds [OF assms(2,3), of v ch] assms(1)
    by (auto simp: max_def split: if_splits)
  then have s: "shakeOffset r k (updateShake cfg v ch (shakeTrauma st)) = (0, 0, k)" for r k v ch
    by (simp add: shakeOffset_def not_less [symmetric])
  show ?thesis
    by (simp add: timelineFrame_def Let_def s)
qed

lemma timelineLoop_rand_indep:
  "dflt (jitter cfg) 0 \<le> 0.5 \<Longrightarrow> 0 \<le> shakeTrauma st \<Longrightarrow>
   shakeTrauma st \<le> max (dflt (jitter cfg) 0) 0 \<Longrightarrow>
   timelineLoop paint layout ext cfg blocks rand n f st h
     = timelineLoop paint layout ext cfg blocks rand' n f st h"
proof (induction paint layout ext cfg blocks rand n f st h rule: timelineLoop.induct)
  case (1 paint layout ext cfg blocks rand n f st h)
  show ?case
  proof (cases "f < n")
    case False
    then show ?thesis by (simp add: timelineLoop.simps [of _ _ _ _ _ _ n f])
  next
    case True
    obtain fr st' where seg: "timelineFrame layout ext cfg blocks rand f st = (fr, st')"
      by (cases "timelineFrame layout ext cfg blocks rand f st")
    have seg': "timelineFrame layout ext cfg blocks rand' f st = (fr, st')"
      using timelineFrame_rand_indep [OF 1(2,3,4), of layout ext blocks rand f rand'] seg by simp
    have b: "0 \<le> shakeTrauma st'" "shakeTrauma st' \<le> max (dflt (jitter cfg) 0) 0"
      using timelineFrame_bounds [OF 1(3,4), of layout ext blocks rand f] seg by simp_all
    show ?thesis
      using True seg seg' 1(1) [OF True seg [symmetric] refl refl refl 1(2) b]
      by (simp add: timelineLoop.simps [of _ _ _ _ _ _ n f] Let_def)
  qed
qed

lemma timeline_frame:
  assumes "f < length (renderTimelineToStream paint layout ext cfg blocks rand)"
  shows "fst (renderTimelineToStream paint layout ext cfg blocks rand ! f)
           = fst (timelineFrame layout ext cfg (sort_key startTime blocks) rand f
                    (timelineStateBefore layout ext cfg (sort_key startTime blocks) rand f))"
proof -
  from assms have "0 + f < nat \<lceil>totalDuration cfg * fps cfg\<rceil>"
    by (simp add: renderTimelineToStream_def Let_def length_timelineLoop)
  from timelineLoop_nth [OF this, of paint layout ext cfg "sort_key startTime blocks" rand None]
  show ?thesis by (simp add: renderTimelineToStream_def Let_def)
qed

lemma render_rand_indep:
  assumes "dflt (jitter cfg) 0 \<le> 0.5"
  shows "renderSegmentToStream paint layout ext cfg rawText rand
           = renderSegmentToStream paint layout ext cfg rawText rand'"
proof -
  have "frameLoop paint layout cfg (ext rawText) rand n 0 initState None
        = frameLoop paint layout cfg (ext rawText) rand' n 0 initState None" for n
    by (rule frameLoop_rand_indep [OF assms]) (simp_all add: initState_def)
  then show ?thesis
    by (simp add: renderSegmentToStream_def Let_def split: option.splits)
qed

lemma timeline_rand_indep:
  assumes "dflt (jitter cfg) 0 \<le> 0.5"
  shows "renderTimelineToStream paint layout ext cfg blocks rand
           = renderTimelineToStream paint layout ext cfg blocks rand'"
proof -
  have "timelineLoop paint layout ext cfg bs rand n 0 initTimelineState None
        = timelineLoop paint layout ext cfg bs rand' n 0 initTimelineState None" for n bs
    by (rule timelineLoop_rand_indep [OF assms]) (simp_all add: initTimelineState_def)
  then show ?thesis
    by (simp add: renderTimelineToStream_def Let_def)
qed

lemma frames_trauma_bounds:
  assumes R: "renderSegmentToStream paint layout ext cfg rawText rand = Some frames"
    and f: "f < length frames"
  shows "0 \<le> trauma (fst (frames ! f)) \<and>
         trauma (fst (frames ! f)) \<le> max (dflt (jitter cfg) 0) 0"
  using stateBefore_bounds [of layout cfg "ext rawText" rand "Suc f"]
  by (simp add: renderSegment_frame [OF R f] segmentFrame_state)

lemma stateBefore_no_rand:
  assumes "dflt (jitter cfg) 0 \<le> 0.5"
  shows "randCalls (stateBefore layout cfg tx rand f) = 0"
proof (induction f)
  case 0
  show ?case by (simp add: initState_def)
next
  case (Suc f)
  with stateBefore_bounds [of layout cfg tx rand f] show ?case
    by (simp add: segmentFrame_rand_indep(2) [OF assms])
qed

lemma timeline_trauma_bounds:
  assumes f: "f < length (renderTimelineToStream paint layout ext cfg blocks rand)"
    and b: "fst (renderTimelineToStream paint layout ext cfg blocks rand ! f) = BlockFrame i c fr"
  shows "0 \<le> trauma fr \<and> trauma fr \<le> max (dflt (jitter cfg) 0) 0 \<and>
         (0.5 < trauma fr \<or> (shakeX fr = 0 \<and> shakeY fr = 0))"
proof -
  let ?bs = "sort_key startTime blocks"
  let ?st = "timelineStateBefore layout ext cfg ?bs rand f"
  note bnd = timelineStateBefore_bounds [of layout ext cfg ?bs rand f]
  show ?thesis
  proof (cases rule: timelineFrame_cases [of layout ext cfg ?bs rand f ?st])
    case background
    with b timeline_frame [OF f] show ?thesis by simp
  next
    case (active fr' st' v ch)
    with b timeline_frame [OF f] have e: "fr' = fr" by simp
    from active(3) bnd updateShake_bounds [of "shakeTrauma ?st" cfg v ch]
    have "0 \<le> trauma fr \<and> trauma fr \<le> max (dflt (jitter cfg) 0) 0"
      unfolding e by simp
    moreover from active(5) have "0.5 < trauma fr \<or> (shakeX fr = 0 \<and> shakeY fr = 0)"
      unfolding e by (auto simp: shakeOffset_def split: if_splits)
    ultimately show ?thesis by simp
  qed
qed

section \<open>Reproducible frames\<close>

lemma frames_no_shake:
  assumes j: "dflt (jitter cfg) 0 \<le> 0.5"
    and R: "renderSegmentToStream paint layout ext cfg rawText rand = Some frames"
    and f: "f < length frames"
  shows "shakeX (fst (frames ! f)) = 0 \<and> shakeY (fst (frames ! f)) = 0"
  using stateBefore_bounds [of layout cfg "ext rawText" rand f]
  by (simp add: renderSegment_frame [OF R f] segmentFrame_rand_indep(3,4) [OF j])

text \<open>
  Claim C3. With a jitter of 0 the frames and the pixel buffers that a single-block render
  writes are the same for every random source: rendering the same text with the same
  configuration twice gives the same sequence. On every frame the trauma is 0 (it is never
  reset) and the text layer is not translated (the random branch is not taken).
\<close>

theorem jitter_zero_reproducible:
  assumes "jitter cfg = Some 0"
  shows "renderSegmentToStream paint layout ext cfg rawText rand
           = renderSegmentToStream paint layout ext cfg rawText rand' \<and>
         (\<forall>frames f. renderSegmentToStream paint layout ext cfg rawText rand = Some frames
            \<longrightarrow> f < length frames
            \<longrightarrow> trauma (fst (frames ! f)) = 0 \<and> shakeX (fst (frames ! f)) = 0
                \<and> shakeY (fst (frames ! f)) = 0)"
proof -
  from assms have j: "dflt (jitter cfg) 0 \<le> 0.5" and m: "max (dflt (jitter cfg) 0) 0 = 0"
    by (simp_all add: dflt_def)
  have "trauma (fst (frames ! f)) = 0 \<and> shakeX (fst (frames ! f)) = 0
          \<and> shakeY (fst (frames ! f)) = 0"
    if R: "renderSegmentToStream paint layout ext cfg rawText rand = Some frames"
      and f: "f < length frames" for frames f
    using frames_trauma_bounds [OF R f] frames_no_shake [OF j R f] unfolding m by simp
  with render_rand_indep [OF j, of paint layout ext rawText rand rand'] show ?thesis
    by blast
qed

lemma example_frames_rand:
  "renderSegmentToStream recordPaint lineLayout (\<lambda>s. s) exampleConfig ''hello'' rand
     = Some (frameLoop recordPaint lineLayout exampleConfig ''hello'' rand 60 0 initState None)"
  by (simp add: renderSegmentToStream_def totalFrames_def totalDurationSeg_def cps_def dflt_def
        js_or_def exampleConfig_def)

theorem jitter_zero_reproducible_witness:
  "frameLoop recordPaint lineLayout exampleConfig ''hello'' (\<lambda>k. 0) 60 0 initState None
     = frameLoop recordPaint lineLayout exampleConfig ''hello'' (\<lambda>k. 1) 60 0 initState None \<and>
   trauma (fst (frameLoop recordPaint lineLayout exampleConfig ''hello'' (\<lambda>k. 1) 60 0
                  initState None ! 3)) = 0 \<and>
   shakeX (fst (frameLoop recordPaint lineLayout exampleConfig ''hello'' (\<lambda>k. 1) 60 0
                  initState None ! 3)) = 0"
proof -
  let ?F = "\<lambda>r. frameLoop recordPaint lineLayout exampleConfig ''hello'' r 60 0 initState None"
  have j: "jitter exampleConfig = Some 0" by (simp add: exampleConfig_def)
  note th = jitter_zero_reproducible [OF j, of recordPaint lineLayout "\<lambda>s. s" "''hello''"
      "\<lambda>k. 1" "\<lambda>k. 0"]
  have len: "3 < length (?F (\<lambda>k. 1))"
    by (simp add: length_frameLoop)
  from th have eq: "Some (?F (\<lambda>k. 1)) = Some (?F (\<lambda>k. 0))"
    unfolding example_frames_rand by (rule conjunct1)
  from th have "\<forall>frames f. Some (?F (\<lambda>k. 1)) = Some frames \<longrightarrow> f < length frames \<longrightarrow>
      trauma (fst (frames ! f)) = 0 \<and> shakeX (fst (frames ! f)) = 0
        \<and> shakeY (fst (frames ! f)) = 0"
    unfolding example_frames_rand by (rule conjunct2)
  with len have "trauma (fst (?F (\<lambda>k. 1) ! 3)) = 0 \<and> shakeX (fst (?F (\<lambda>k. 1) ! 3)) = 0"
    by blast
  with eq show ?thesis by simp
qed

section \<open>The trauma invariant of both renders\<close>

lemma example_sorted: "sort_key startTime exampleBlocks = exampleBlocks"
  by (simp add: exampleBlocks_def)

lemma timeline_length:
  "length (renderTimelineToStream paint layout ext cfg blocks rand)
     = nat \<lceil>totalDuration cfg * fps cfg\<rceil>"
  by (simp add: renderTimelineToStream_def Let_def length_timelineLoop)

text \<open>
  Claim C10. In a single-block render and in a timeline render the trauma of every frame
  lies between 0 and \<open>max(config.jitter, 0)\<close>. With a jitter of at most 0.5 the text layer
  is translated on no frame, no call of the random source is made, and the frames and
  buffers written are the same for every random source.
\<close>

theorem trauma_invariant:
  "(\<forall>frames f. renderSegmentToStream paint layout ext cfg rawText rand = Some frames
      \<longrightarrow> f < length frames
      \<longrightarrow> 0 \<le> trauma (fst (frames ! f))
          \<and> trauma (fst (frames ! f)) \<le> max (dflt (jitter cfg) 0) 0
          \<and> (dflt (jitter cfg) 0 \<le> 0.5
               \<longrightarrow> shakeX (fst (frames ! f)) = 0 \<and> shakeY (fst (frames ! f)) = 0
                   \<and> randCalls (stateBefore layout cfg (ext rawText) rand (Suc f)) = 0)) \<and>
   (\<forall>f i c fr. f < length (renderTimelineToStream paintT layout ext cfg blocks rand)
      \<longrightarrow> fst (renderTimelineToStream paintT layout ext cfg blocks rand ! f) = BlockFrame i c fr
      \<longrightarrow> 0 \<le> trauma fr \<and> trauma fr \<le> max (dflt (jitter cfg) 0) 0
          \<and> (dflt (jitter cfg) 0 \<le> 0.5 \<longrightarrow> shakeX fr = 0 \<and> shakeY fr = 0)) \<and>
   (dflt (jitter cfg) 0 \<le> 0.5
      \<longrightarrow> renderSegmentToStream paint layout ext cfg rawText rand
            = renderSegmentToStream paint layout ext cfg rawText rand'
          \<and> renderTimelineToStream paintT layout ext cfg blocks rand
            = renderTimelineToStream paintT layout ext cfg blocks rand')"
proof -
  have seg: "0 \<le> trauma (fst (frames ! f))
          \<and> trauma (fst (frames ! f)) \<le> max (dflt (jitter cfg) 0) 0
          \<and> (dflt (jitter cfg) 0 \<le> 0.5
               \<longrightarrow> shakeX (fst (frames ! f)) = 0 \<and> shakeY (fst (frames ! f)) = 0
                   \<and> randCalls (stateBefore layout cfg (ext rawText) rand (Suc f)) = 0)"
    if R: "renderSegmentToStream paint layout ext cfg rawText rand = Some frames"
      and f: "f < length frames" for frames f
    using frames_trauma_bounds [OF R f] frames_no_shake [OF _ R f] stateBefore_no_rand
    by blast
  have tl: "0 \<le> trauma fr \<and> trauma fr \<le> max (dflt (jitter cfg) 0) 0
          \<and> (dflt (jitter cfg) 0 \<le> 0.5 \<longrightarrow> shakeX fr = 0 \<and> shakeY fr = 0)"
    if f: "f < length (renderTimelineToStream paintT layout ext cfg blocks rand)"
      and b: "fst (renderTimelineToStream paintT layout ext cfg blocks rand ! f) = BlockFrame i c fr"
    for f i c fr
    using timeline_trauma_bounds [OF f b] by (auto simp: max_def split: if_splits)
  have ind: "renderSegmentToStream paint layout ext cfg rawText rand
            = renderSegmentToStream paint layout ext cfg rawText rand'
          \<and> renderTimelineToStream paintT layout ext cfg blocks rand
            = renderTimelineToStream paintT layout ext cfg blocks rand'"
    if "dflt (jitter cfg) 0 \<le> 0.5"
    by (rule conjI [OF render_rand_indep [OF that] timeline_rand_indep [OF that]])
  from seg tl ind show ?thesis by blast
qed

lemma example_block_frame:
  assumes "fps cfg = 30" and "totalDuration cfg = 6"
  shows "\<exists>fr. fst (renderTimelineToStream paint layout (\<lambda>s. s) cfg exampleBlocks rand ! 30)
               = BlockFrame 0 1 fr"
proof -
  let ?T = "renderTimelineToStream paint layout (\<lambda>s. s) cfg exampleBlocks rand"
  let ?st = "timelineStateBefore layout (\<lambda>s. s) cfg exampleBlocks rand 30"
  have len: "30 < length ?T" using assms by (simp add: timeline_length)
  have fa: "findActive exampleBlocks (real 30 / fps cfg) 0 = 0"
    using assms by (simp add: exampleBlocks_def)
  from timeline_frame [OF len]
  have fr: "fst (?T ! 30) = fst (timelineFrame layout (\<lambda>s. s) cfg exampleBlocks rand 30 ?st)"
    by (simp add: example_sorted)
  show ?thesis
  proof (cases rule: timelineFrame_cases [of layout "\<lambda>s. s" cfg exampleBlocks rand 30 ?st])
    case background
    with fa show ?thesis by simp
  next
    case (active fr' st' v ch)
    from active(1) have "fst (?T ! 30) = BlockFrame 0 1 fr'"
      unfolding fr fa by (simp add: exampleBlocks_def)
    then show ?thesis ..
  qed
qed

theorem trauma_invariant_witness:
  "(let F = frameLoop recordPaint lineLayout mildConfig ''hello'' (\<lambda>k. 1) 60 0 initState None
    in 0 \<le> trauma (fst (F ! 3)) \<and> trauma (fst (F ! 3)) \<le> 3 / 10 \<and> shakeX (fst (F ! 3)) = 0
       \<and> shakeY (fst (F ! 3)) = 0) \<and>
   (\<exists>fr. fst (renderTimelineToStream recordPaint lineLayout (\<lambda>s. s) mildConfig exampleBlocks
                 (\<lambda>k. 1) ! 30) = BlockFrame 0 1 fr
         \<and> 0 \<le> trauma fr \<and> trauma fr \<le> 3 / 10 \<and> shakeX fr = 0 \<and> shakeY fr = 0) \<and>
   renderTimelineToStream recordPaint lineLayout (\<lambda>s. s) mildConfig exampleBlocks (\<lambda>k. 1)
     = renderTimelineToStream recordPaint lineLayout (\<lambda>s. s) mildConfig exampleBlocks (\<lambda>k. 0)"
proof -
  let ?F = "frameLoop recordPaint lineLayout mildConfig ''hello'' (\<lambda>k. 1) 60 0 initState None"
  let ?T = "renderTimelineToStream recordPaint lineLayout (\<lambda>s. s) mildConfig exampleBlocks
              (\<lambda>k. 1)"
  have c: "fps mildConfig = 30" "totalDuration mildConfig = 6"
    by (simp_all add: mildConfig_def exampleConfig_def)
  have j: "dflt (jitter mildConfig) 0 = 3 / 10"
    by (simp add: mildConfig_def exampleConfig_def dflt_def)
  have R: "renderSegmentToStream recordPaint lineLayout (\<lambda>s. s) mildConfig ''hello'' (\<lambda>k. 1)
             = Some ?F"
    by (simp add: renderSegmentToStream_def totalFrames_def totalDurationSeg_def cps_def dflt_def
          js_or_def exampleConfig_def mildConfig_def)
  have lenF: "3 < length ?F" by (simp add: length_frameLoop)
  have lenT: "30 < length ?T" using c by (simp add: timeline_length)
  obtain fr where fr: "fst (?T ! 30) = BlockFrame 0 1 fr"
    using example_block_frame [OF c] by blast
  note th = trauma_invariant [of recordPaint lineLayout "\<lambda>s. s" mildConfig "''hello''" "\<lambda>k. 1"
      recordPaint exampleBlocks "\<lambda>k. 0"]
  from th R lenF have a: "0 \<le> trauma (fst (?F ! 3)) \<and> trauma (fst (?F ! 3)) \<le> 3 / 10
      \<and> shakeX (fst (?F ! 3)) = 0 \<and> shakeY (fst (?F ! 3)) = 0"
    unfolding j by simp
  from th lenT fr have b: "0 \<le> trauma fr \<and> trauma fr \<le> 3 / 10 \<and> shakeX fr = 0 \<and> shakeY fr = 0"
    unfolding j by simp
  from th have d: "?T = renderTimelineToStream recordPaint lineLayout (\<lambda>s. s) mildConfig
                         exampleBlocks (\<lambda>k. 0)"
    unfolding j by simp
  from a b d fr show ?thesis unfolding Let_def by blast
qed

section \<open>The active block of a timeline frame\<close>







section \<open>The default style, settled\<close>

lemma segmentFrame_chars:
  "flatChars (fst (segmentFrame layout cfg tx rand f st))
     = (if visibleCount cfg (length tx) f \<noteq> lastVisibleCount st
        then layout (if style cfg = ''default''
                     then take (nat (visibleCount cfg (length tx) f)) tx else tx)
        else cachedFlatChars st)"
  "cachedFlatChars (snd (segmentFrame layout cfg tx rand f st))
     = flatChars (fst (segmentFrame layout cfg tx rand f st))"
  "mainLayer (fst (segmentFrame layout cfg tx rand f st))
     = mainTextLayer cfg f (visibleCount cfg (length tx) f) (length tx)
         (flatChars (fst (segmentFrame layout cfg tx rand f st)))"
  by (simp_all add: segmentFrame_def Let_def split: prod.splits)

lemma frameLoop_nth0:
  "i < n \<Longrightarrow>
   fst (frameLoop paint layout cfg tx rand n 0 initState h ! i)
     = fst (segmentFrame layout cfg tx rand i (stateBefore layout cfg tx rand i))"
  using frameLoop_nth [of 0 i n paint layout cfg tx rand h] by simp

lemma mainTextLayer_Nil: "mainTextLayer cfg f v n [] = []"
  by (simp add: mainTextLayer_def Let_def)

text \<open>
  Claim C2 does not hold as stated. At 32 frames per second, 4 characters per second and 2
  reveal frames, character 0 has \<open>startFrame + revealFrames = 2\<close>, and at frame 2 it is not
  yet visible: its resolved opacity is 0 and the frame draws no character. With motion blur
  (8 characters per second, 4 reveal frames, a blur of 1/16) character 0 at frame 4 is drawn
  a second time, at the sub-sample offset \<open>-1/2\<close>, with opacity 511/512 and an offset of
  9/256 pixels.
\<close>

theorem default_settled_counterexample:
  "startFrame slowConfig (index charA) + rframes slowConfig \<le> real 2 \<and>
   opacity (renderChar slowConfig 2 (visibleCount slowConfig 2 2) 2 charA 0 1) = 0 \<and>
   mainLayer (fst (frameLoop recordPaint lineLayout slowConfig ''ab'' (\<lambda>k. 0) 64 0 initState None
                     ! 2)) = [] \<and>
   startFrame blurConfig (index charA) + rframes blurConfig \<le> real 4 \<and>
   mainTextLayer blurConfig 4 (visibleCount blurConfig 2 4) 2 [charA]
     = [renderChar blurConfig 4 1 2 charA 0 (1 / 2),
        renderChar blurConfig 4 1 2 charA (- (1 / 2)) (1 / 2)] \<and>
   opacity (renderChar blurConfig 4 1 2 charA (- (1 / 2)) (1 / 2)) = 511 / 512 \<and>
   xOffset (renderChar blurConfig 4 1 2 charA (- (1 / 2)) (1 / 2)) = 9 / 256"
proof -
  have s: "fps slowConfig = 32" "cps slowConfig = 4" "rframes slowConfig = 2"
    "style slowConfig = ''default''"
    by (simp_all add: slowConfig_def exampleConfig_def cps_def rframes_def dflt_def style_def)
  have b: "fps blurConfig = 32" "cps blurConfig = 8" "rframes blurConfig = 4"
    "style blurConfig = ''default''" "roffset blurConfig = 18" "motionSamples blurConfig = 2"
    by (simp_all add: blurConfig_def exampleConfig_def cps_def rframes_def dflt_def style_def
        roffset_def motionSamples_def js_pos_def)
  have v: "visibleCount slowConfig 2 2 = 0" "visibleCount blurConfig 2 4 = 1"
    by (simp_all add: visibleCount_def s b)
  have 1: "startFrame slowConfig (index charA) + rframes slowConfig \<le> real 2"
    by (simp add: startFrame_def charA_def s)
  have 2: "opacity (renderChar slowConfig 2 (visibleCount slowConfig 2 2) 2 charA 0 1) = 0"
    unfolding v by (simp add: renderChar_def resolveStyle_def s charA_def Let_def)
  have 4: "startFrame blurConfig (index charA) + rframes blurConfig \<le> real 4"
    by (simp add: startFrame_def charA_def b)
  have 5: "mainTextLayer blurConfig 4 (visibleCount blurConfig 2 4) 2 [charA]
     = [renderChar blurConfig 4 1 2 charA 0 (1 / 2),
        renderChar blurConfig 4 1 2 charA (- (1 / 2)) (1 / 2)]"
    unfolding v
    by (simp add: mainTextLayer_def b isTypingActive_def fullyRevealed_def startFrame_def
        charA_def Let_def numeral_2_eq_2)
  have 6: "opacity (renderChar blurConfig 4 1 2 charA (- (1 / 2)) (1 / 2)) = 511 / 512"
    "xOffset (renderChar blurConfig 4 1 2 charA (- (1 / 2)) (1 / 2)) = 9 / 256"
    by (simp_all add: renderChar_def resolveStyle_def b charA_def Let_def progressAt_def
        startFrame_def easeOutCubic_def power3_eq_cube)
  let ?st = "stateBefore lineLayout slowConfig ''ab'' (\<lambda>k. 0)"
  let ?seg = "\<lambda>f. segmentFrame lineLayout slowConfig ''ab'' (\<lambda>k. 0) f (?st f)"
  have vs: "visibleCount slowConfig (Suc (Suc 0)) 0 = 0"
    "visibleCount slowConfig (Suc (Suc 0)) 1 = 0" "visibleCount slowConfig (Suc (Suc 0)) 2 = 0"
    "visibleCount slowConfig (Suc (Suc 0)) (Suc 0) = 0"
    by (simp_all add: visibleCount_def s)
  have c0: "flatChars (fst (?seg 0)) = []"
    by (simp add: segmentFrame_chars(1) vs initState_def s lineLayout_def)
  have c1: "flatChars (fst (?seg 1)) = []"
    using c0 vs by (simp add: segmentFrame_chars(1,2) segmentFrame_state(2))
  have st2: "?st 2 = snd (?seg 1)" by (simp add: numeral_2_eq_2)
  have c2: "flatChars (fst (?seg 2)) = []"
    unfolding st2 using c1 vs by (simp add: segmentFrame_chars(1,2) segmentFrame_state(2))
  have e: "fst (frameLoop recordPaint lineLayout slowConfig ''ab'' (\<lambda>k. 0) 64 0 initState None ! 2)
             = fst (?seg 2)"
    by (rule frameLoop_nth0) simp
  have 3: "mainLayer (fst (frameLoop recordPaint lineLayout slowConfig ''ab'' (\<lambda>k. 0) 64 0
                             initState None ! 2)) = []"
    unfolding e segmentFrame_chars(3) c2 by (rule mainTextLayer_Nil)
  from 1 2 3 4 5 6 show ?thesis by blast
qed

text \<open>
  Claim C2, amended. In the default style of a single-block render, with positive frame
  rate, typing speed and reveal frames, a character that is visible at frame \<open>f\<close>
  (its index is below the visible count of the frame) and is rendered at a sub-sample offset
  \<open>s\<close> with \<open>f + s \<ge> startFrame + revealFrames\<close> has the resolved opacity 1 and the offset 0:
  its own glyph at its rest position. On the single pass \<open>s\<close> is 0 and the condition is
  \<open>f \<ge> startFrame + revealFrames\<close>.
\<close>

theorem default_settled:
  assumes "style cfg = ''default''"
    and "0 < fps cfg" and "0 < cps cfg" and "0 < rframes cfg"
    and "int (index c) < visibleCount cfg totalChars f"
    and "startFrame cfg (index c) + rframes cfg \<le> real f + sampleProgress"
  shows "opacity (renderChar cfg f (visibleCount cfg totalChars f) totalChars c
                    sampleProgress opacityMult) = 1 \<and>
         xOffset (renderChar cfg f (visibleCount cfg totalChars f) totalChars c
                    sampleProgress opacityMult) = 0 \<and>
         charToDraw (renderChar cfg f (visibleCount cfg totalChars f) totalChars c
                    sampleProgress opacityMult) = char c \<and>
         drawX (renderChar cfg f (visibleCount cfg totalChars f) totalChars c
                    sampleProgress opacityMult) = x c \<and>
         alpha (renderChar cfg f (visibleCount cfg totalChars f) totalChars c
                    sampleProgress opacityMult) = opacityMult"
proof -
  let ?p = "progressAt (real f) sampleProgress (startFrame cfg (index c)) (rframes cfg)"
  from assms(4,6) have "1 \<le> ?p"
    by (simp add: progressAt_def Let_def le_divide_eq)
  then have p: "\<not> ?p < 1" "\<not> ?p \<le> 0" by simp_all
  from assms(1,5) p
  have "resolveStyle cfg f (visibleCount cfg totalChars f) totalChars c ?p = (1, 0, char c)"
    by (simp add: resolveStyle_def)
  then show ?thesis
    by (simp add: renderChar_def Let_def)
qed

theorem default_settled_witness:
  "opacity (renderChar exampleConfig 6 (visibleCount exampleConfig 5 6) 5
              \<lparr> index = 1, char = ''e'', x = 10, y = 0, color = None \<rparr> 0 1) = 1 \<and>
   xOffset (renderChar exampleConfig 6 (visibleCount exampleConfig 5 6) 5
              \<lparr> index = 1, char = ''e'', x = 10, y = 0, color = None \<rparr> 0 1) = 0"
proof -
  let ?c = "\<lparr> index = 1, char = ''e'', x = 10, y = 0, color = None \<rparr>"
  have c: "fps exampleConfig = 30" "cps exampleConfig = 10" "rframes exampleConfig = 3"
    "style exampleConfig = ''default''"
    by (simp_all add: exampleConfig_def cps_def rframes_def dflt_def style_def)
  have a: "0 < fps exampleConfig" "0 < cps exampleConfig" "0 < rframes exampleConfig"
    by (simp_all add: c)
  have v: "int (index ?c) < visibleCount exampleConfig 5 6"
    by (simp add: visibleCount_def c)
  have s: "startFrame exampleConfig (index ?c) + rframes exampleConfig \<le> real 6 + 0"
    by (simp add: startFrame_def c)
  from default_settled [OF c(4) a v s, of 1] show ?thesis by simp
qed

section \<open>The glitch style\<close>









section \<open>Output path and result of a render\<close>












section \<open>Frame emission\<close>

lemma await_next:
  assumes "loopRun n (AwaitDrain f) tr s" and "tr \<noteq> []"
  shows "tr ! 0 = Drain f"
  using assms by (cases rule: loopRun.cases) (auto elim: loopStep.cases)

lemma run_written:
  assumes "loopRun n s tr s'"
  shows "writtenFrames tr = [nextWrite s ..< nextWrite s'] \<and> nextWrite s \<le> nextWrite s'"
  using assms
proof (induction rule: loopRun.induct)
  case (stay s)
  show ?case by simp
next
  case (step s e s' es s'')
  from step.hyps(1) step.IH show ?case
    by (cases rule: loopStep.cases) (auto simp: upt_conv_Cons)
qed

lemma run_composed:
  assumes "loopRun n s tr s'"
  shows "composedFrames tr = [nextCompose s ..< nextCompose s'] \<and> nextCompose s \<le> nextCompose s'"
  using assms
proof (induction rule: loopRun.induct)
  case (stay s)
  show ?case by simp
next
  case (step s e s' es s'')
  from step.hyps(1) step.IH show ?case
    by (cases rule: loopStep.cases) (auto simp: upt_conv_Cons)
qed

lemma run_bound:
  assumes "loopRun n s tr s'" and "inLoop n s"
  shows "inLoop n s'"
  using assms
proof (induction rule: loopRun.induct)
  case (stay s)
  then show ?case by simp
next
  case (step s e s' es s'')
  from step.hyps(1) step.prems have "inLoop n s'"
    by (cases rule: loopStep.cases) auto
  then show ?case by (rule step.IH)
qed

lemma inLoop_nextWrite: "inLoop n s \<Longrightarrow> nextWrite s \<le> n"
  by (cases s) auto

lemma run_drain:
  assumes "loopRun n s tr s'" and "Suc i < length tr" and "tr ! i = Write f False"
  shows "tr ! Suc i = Drain f"
  using assms
proof (induction arbitrary: i rule: loopRun.induct)
  case (stay s)
  then show ?case by simp
next
  case (step s e s' es s'')
  show ?case
  proof (cases i)
    case 0
    with step.prems have e: "e = Write f False" and ne: "es \<noteq> []" by auto
    from step.hyps(1) have "s' = AwaitDrain f"
      unfolding e by (cases rule: loopStep.cases) auto
    with step.hyps(2) ne have "es ! 0 = Drain f" by (simp add: await_next)
    with 0 show ?thesis by simp
  next
    case (Suc j)
    with step.prems have "Suc j < length es" "es ! j = Write f False" by simp_all
    from step.IH [OF this] Suc show ?thesis by simp
  qed
qed

lemma run_compose_first:
  assumes "loopRun n s tr s'" and "i < length tr" and "tr ! i = Write f b"
  shows "(i = 0 \<and> s = Composed f) \<or> (0 < i \<and> tr ! (i - 1) = Compose f)"
  using assms
proof (induction arbitrary: i rule: loopRun.induct)
  case (stay s)
  then show ?case by simp
next
  case (step s e s' es s'')
  show ?case
  proof (cases i)
    case 0
    with step.prems have e: "e = Write f b" by simp
    from step.hyps(1) have "s = Composed f"
      unfolding e by (cases rule: loopStep.cases) auto
    with 0 show ?thesis by simp
  next
    case (Suc j)
    with step.prems have j: "j < length es" "es ! j = Write f b" by simp_all
    from step.IH [OF this] have "(j = 0 \<and> s' = Composed f) \<or> (0 < j \<and> es ! (j - 1) = Compose f)" .
    then show ?thesis
    proof
      assume a: "j = 0 \<and> s' = Composed f"
      with step.hyps(1) have "e = Compose f"
        by (cases rule: loopStep.cases) auto
      with a Suc show ?thesis by simp
    next
      assume "0 < j \<and> es ! (j - 1) = Compose f"
      with Suc show ?thesis by (cases j) simp_all
    qed
  qed
qed

lemma loopRun_append:
  assumes "loopRun n s tr s'" and "loopRun n s' tr' s''"
  shows "loopRun n s (tr @ tr') s''"
  using assms by (induction rule: loopRun.induct) (auto intro: loopRun.intros)

lemma loopTrace_run:
  "f \<le> n \<Longrightarrow> loopRun n (LoopHead f) (loopTrace accepts n f) (LoopHead n)"
proof (induction accepts n f rule: loopTrace.induct)
  case (1 accepts n f)
  show ?case
  proof (cases "f < n")
    case False
    with 1(2) have "f = n" by simp
    then show ?thesis by (subst loopTrace.simps) (simp add: loopRun.stay)
  next
    case True
    then have rest: "loopRun n (LoopHead (Suc f)) (loopTrace accepts n (Suc f)) (LoopHead n)"
      using 1(1) by simp
    have a: "loopRun n (LoopHead f) ((if f mod 10 = 0 then [Yield f] else []) @ [Compose f])
               (Composed f)"
      using True
      by (auto intro!: loopRun.intros loopStep.intros)
    have b: "loopRun n (Composed f) (Write f (accepts f) # (if accepts f then [] else [Drain f]))
               (LoopHead (Suc f))"
      by (cases "accepts f") (auto intro!: loopRun.intros loopStep.intros)
    from loopRun_append [OF loopRun_append [OF a b] rest] True show ?thesis
      by (subst loopTrace.simps) simp
  qed
qed

lemma run_compose_after:
  assumes "loopRun n s tr s'" and "i < length tr" and "tr ! i = Compose f"
  shows "(s = LoopHead f \<or> s = Body f) \<or>
         (\<exists>g j. f = Suc g \<and> j < i \<and> (tr ! j = Write g True \<or> tr ! j = Drain g))"
  using assms
proof (induction arbitrary: i rule: loopRun.induct)
  case (stay s)
  then show ?case by simp
next
  case (step s e s' es s'')
  show ?case
  proof (cases i)
    case 0
    with step.prems have e: "e = Compose f" by simp
    from step.hyps(1) have "s = LoopHead f \<or> s = Body f"
      unfolding e by (cases rule: loopStep.cases) auto
    then show ?thesis by simp
  next
    case (Suc k)
    with step.prems have k: "k < length es" "es ! k = Compose f" by simp_all
    from step.IH [OF this]
    have "(s' = LoopHead f \<or> s' = Body f) \<or>
          (\<exists>g j. f = Suc g \<and> j < k \<and> (es ! j = Write g True \<or> es ! j = Drain g))" .
    then show ?thesis
    proof (elim disjE)
      assume "s' = LoopHead f"
      with step.hyps(1) have "\<exists>g. f = Suc g \<and> (e = Write g True \<or> e = Drain g)"
        by (cases rule: loopStep.cases) auto
      then obtain g where "f = Suc g" "(e # es) ! 0 = Write g True \<or> (e # es) ! 0 = Drain g"
        by auto
      with Suc show ?thesis by blast
    next
      assume "s' = Body f"
      with step.hyps(1) have "s = LoopHead f"
        by (cases rule: loopStep.cases) auto
      then show ?thesis by simp
    next
      assume "\<exists>g j. f = Suc g \<and> j < k \<and> (es ! j = Write g True \<or> es ! j = Drain g)"
      then obtain g j where gj: "f = Suc g" "j < k" "es ! j = Write g True \<or> es ! j = Drain g"
        by blast
      then have "Suc j < i" "(e # es) ! Suc j = Write g True \<or> (e # es) ! Suc j = Drain g"
        using Suc by simp_all
      with gj(1) show ?thesis by blast
    qed
  qed
qed

text \<open>
  Claim C7. In every run of the frame loop, complete or not, the frames are written in the
  order 0, 1, 2, ..., each at most once and none beyond the last frame, and they are composed
  in that order; a write is the step after the composition of its frame; the step after a
  write that returned \<open>false\<close>, when there is one, is the \<open>drain\<close> event of that write; and
  frame \<open>N+1\<close> is composed only after the write of frame \<open>N\<close> returned \<open>true\<close> or the \<open>drain\<close>
  event followed it.
\<close>

theorem frames_in_order:
  assumes "loopRun nFrames (LoopHead 0) tr s"
  shows "writtenFrames tr = [0 ..< length (writtenFrames tr)] \<and>
         length (writtenFrames tr) \<le> nFrames \<and>
         composedFrames tr = [0 ..< length (composedFrames tr)] \<and>
         (\<forall>i f. Suc i < length tr \<and> tr ! i = Write f False \<longrightarrow> tr ! Suc i = Drain f) \<and>
         (\<forall>i f b. i < length tr \<and> tr ! i = Write f b \<longrightarrow> 0 < i \<and> tr ! (i - 1) = Compose f) \<and>
         (\<forall>i f. i < length tr \<and> tr ! i = Compose (Suc f)
            \<longrightarrow> (\<exists>j < i. tr ! j = Write f True \<or> tr ! j = Drain f))"
proof -
  from run_written [OF assms] have w: "writtenFrames tr = [0 ..< nextWrite s]" by simp
  then have lw: "length (writtenFrames tr) = nextWrite s" by simp
  from run_composed [OF assms] have c: "composedFrames tr = [0 ..< nextCompose s]" by simp
  then have lc: "length (composedFrames tr) = nextCompose s" by simp
  have "inLoop nFrames s" by (rule run_bound [OF assms]) simp
  then have b: "nextWrite s \<le> nFrames" by (rule inLoop_nextWrite)
  have d: "tr ! Suc i = Drain f" if "Suc i < length tr" "tr ! i = Write f False" for i f
    by (rule run_drain [OF assms that])
  have e: "0 < i \<and> tr ! (i - 1) = Compose f" if "i < length tr" "tr ! i = Write f b" for i f b
    using run_compose_first [OF assms that] by simp
  have g: "\<exists>j < i. tr ! j = Write f True \<or> tr ! j = Drain f"
    if "i < length tr" "tr ! i = Compose (Suc f)" for i f
    using run_compose_after [OF assms that] by auto
  from w c b d e g show ?thesis unfolding lw lc by blast
qed

lemma example_trace:
  "loopTrace (\<lambda>f. f \<noteq> 0) 2 0
     = [Yield 0, Compose 0, Write 0 False, Drain 0, Compose 1, Write 1 True]"
  by (simp add: loopTrace.simps [of _ _ 0] loopTrace.simps [of _ _ "Suc 0"]
      loopTrace.simps [of _ _ "Suc (Suc 0)"])

theorem frames_in_order_witness:
  "loopRun 2 (LoopHead 0) (loopTrace (\<lambda>f. f \<noteq> 0) 2 0) (LoopHead 2) \<and>
   writtenFrames (loopTrace (\<lambda>f. f \<noteq> 0) 2 0) = [0, 1] \<and>
   loopTrace (\<lambda>f. f \<noteq> 0) 2 0 ! 2 = Write 0 False \<and>
   loopTrace (\<lambda>f. f \<noteq> 0) 2 0 ! 3 = Drain 0"
proof -
  let ?tr = "loopTrace (\<lambda>f. f \<noteq> 0) 2 0"
  have r: "loopRun 2 (LoopHead 0) ?tr (LoopHead 2)"
    by (rule loopTrace_run) simp
  note th = frames_in_order [OF r]
  have w2: "Suc 2 < length ?tr" "?tr ! 2 = Write 0 False"
    unfolding example_trace by simp_all
  from th w2 have d: "?tr ! Suc 2 = Drain 0" by blast
  have "length (writtenFrames ?tr) = 2" unfolding example_trace by simp
  with th have w: "writtenFrames ?tr = [0 ..< 2]" by simp
  have "[0 ..< 2] = [0, Suc 0]" by (simp add: numeral_2_eq_2)
  with w r w2(2) d show ?thesis by (simp add: numeral_3_eq_3)
qed

end
